theory Spec2Isabelle
  imports Complex_Main
begin

section \<open>Rate limiter (app/security.py)\<close>

text \<open>
  \<^verbatim>\<open>RateLimitState\<close> is the dataclass of security.py: the monotonic time at which the
  current window started and the number of requests counted in it. The clock
  \<^verbatim>\<open>time.monotonic()\<close> returns a float number of seconds; the model reads the clock
  value as a parameter \<open>now\<close> of each call, a real number (every float is one).
\<close>

record RateLimitState =
  start_time :: real
  count :: int

text \<open>
  \<^verbatim>\<open>RateLimiter\<close>: the configured window length and the dictionary \<^verbatim>\<open>_state\<close> from
  API key to window state. The lock only serialises callers; the model is sequential.
\<close>

record RateLimiter =
  window_seconds :: int
  state :: "string \<Rightarrow> RateLimitState option"

datatype rate_error = RateLimitExceededError

text \<open>
  \<^verbatim>\<open>RateLimiter.check(key, limit)\<close>. The source returns \<^verbatim>\<open>None\<close> or raises
  \<^verbatim>\<open>RateLimitExceededError\<close>, and mutates \<^verbatim>\<open>self._state\<close>; the model returns the
  outcome (\<open>Inr ()\<close> for a normal return, \<open>Inl\<close> for the exception) together with the
  limiter after the call.

  The elapsed time \<^verbatim>\<open>now - state.start_time\<close> is a subtraction of floats: its value is
  the exact difference rounded to a float, which can reach \<^verbatim>\<open>window_seconds\<close> while the
  exact difference is still below it. The model takes that subtraction as the parameter
  \<open>fsub\<close>, so that \<open>fsub now start\<close> is the value the program computes, and assumes
  nothing about it. The comparison of the float with the integer \<^verbatim>\<open>window_seconds\<close> is
  exact in Python.
\<close>

definition check ::
  "(real \<Rightarrow> real \<Rightarrow> real) \<Rightarrow> RateLimiter \<Rightarrow> real \<Rightarrow> string \<Rightarrow> int \<Rightarrow>
   (rate_error + unit) \<times> RateLimiter" where
  "check fsub self now key limit =
     (case state self key of
        None \<Rightarrow>
          (Inr (), self\<lparr>state := (state self)(key \<mapsto> \<lparr>start_time = now, count = 1\<rparr>)\<rparr>)
      | Some st \<Rightarrow>
          if fsub now (start_time st) \<ge> real_of_int (window_seconds self)
          then (Inr (), self\<lparr>state := (state self)(key \<mapsto> \<lparr>start_time = now, count = 1\<rparr>)\<rparr>)
          else if count st \<ge> limit
          then (Inl RateLimitExceededError, self)
          else (Inr (), self\<lparr>state := (state self)(key \<mapsto> st\<lparr>count := count st + 1\<rparr>)\<rparr>))"

text \<open>
  A run of the limiter: the calls \<open>(now, key, limit)\<close> are made one after the other on
  the same limiter object, each on the state its predecessor left; the outcomes are
  collected in call order.
\<close>

fun check_seq ::
  "(real \<Rightarrow> real \<Rightarrow> real) \<Rightarrow> RateLimiter \<Rightarrow> (real \<times> string \<times> int) list \<Rightarrow>
   (rate_error + unit) list \<times> RateLimiter" where
  "check_seq fsub self [] = ([], self)"
| "check_seq fsub self ((now, key, limit) # calls) =
     (case check fsub self now key limit of
        (r, self') \<Rightarrow>
          (case check_seq fsub self' calls of (rs, self'') \<Rightarrow> (r # rs, self'')))"

text \<open>The outcomes of the calls made for key \<open>k\<close>, in call order.\<close>

fun outcomes_for :: "string \<Rightarrow> (real \<times> string \<times> int) list \<Rightarrow> 'a list \<Rightarrow> 'a list" where
  "outcomes_for k ((now, key, limit) # calls) (r # rs) =
     (if key = k then r # outcomes_for k calls rs else outcomes_for k calls rs)"
| "outcomes_for k _ _ = []"

definition allowed :: "rate_error + unit \<Rightarrow> bool" where
  "allowed r = (case r of Inr _ \<Rightarrow> True | Inl _ \<Rightarrow> False)"

text \<open>
  A call at time \<open>now\<close> opens a new window for \<open>key\<close> when the limiter holds no state for
  the key or the elapsed time, as computed, has reached the window length: the first
  test of \<^verbatim>\<open>check\<close>.
\<close>

definition opens_window ::
  "(real \<Rightarrow> real \<Rightarrow> real) \<Rightarrow> RateLimiter \<Rightarrow> real \<Rightarrow> string \<Rightarrow> bool" where
  "opens_window fsub self now key =
     (case state self key of
        None \<Rightarrow> True
      | Some st \<Rightarrow> fsub now (start_time st) \<ge> real_of_int (window_seconds self))"

section \<open>National ID decoder (app/national_id.py)\<close>

text \<open>
  A Python \<^verbatim>\<open>str\<close> is a sequence of code points. The model is a \<open>string\<close>, each \<open>char\<close>
  read as the code point of the same number, so it covers the strings whose code points
  lie below 256; the character classes below are Python's, restricted to that range.
\<close>

text \<open>
  The characters \<^verbatim>\<open>str.strip()\<close> removes: the ASCII whitespace (tab, line feed, vertical
  tab, form feed, carriage return, the separators 28 to 31, space) and, below 256, the
  next-line character 133 and the no-break space 160.
\<close>

definition is_space :: "char \<Rightarrow> bool" where
  "is_space c =
     (let n = (of_char c :: nat)
      in (9 \<le> n \<and> n \<le> 13) \<or> (28 \<le> n \<and> n \<le> 32) \<or> n = 133 \<or> n = 160)"

definition strip :: "string \<Rightarrow> string" where
  "strip s = rev (dropWhile is_space (rev (dropWhile is_space s)))"

text \<open>
  \<^verbatim>\<open>str.isdigit()\<close>: the string is not empty and every character is a digit. Below 256
  the digits are \<^verbatim>\<open>0\<close> to \<^verbatim>\<open>9\<close> and the superscripts two, three and one (178, 179, 185),
  which \<^verbatim>\<open>isdigit\<close> accepts and \<^verbatim>\<open>int()\<close> refuses.
\<close>

definition is_decimal :: "char \<Rightarrow> bool" where
  "is_decimal c = (let n = (of_char c :: nat) in 48 \<le> n \<and> n \<le> 57)"

definition is_digit_char :: "char \<Rightarrow> bool" where
  "is_digit_char c =
     (let n = (of_char c :: nat) in (48 \<le> n \<and> n \<le> 57) \<or> n = 178 \<or> n = 179 \<or> n = 185)"

definition isdigit :: "string \<Rightarrow> bool" where
  "isdigit s = (s \<noteq> [] \<and> list_all is_digit_char s)"

datatype nid_error =
    NationalIDValidationError string
  | ValueError

text \<open>
  \<^verbatim>\<open>int(s)\<close> for a string of \<^verbatim>\<open>isdigit\<close> characters, the only strings the decoder passes
  to it: the decimal value when every character is one of \<^verbatim>\<open>0\<close> to \<^verbatim>\<open>9\<close>, and
  \<^verbatim>\<open>ValueError\<close> otherwise. That exception is not a \<^verbatim>\<open>NationalIDValidationError\<close> and no
  handler of the decoder catches it.
\<close>

definition digit_value :: "char \<Rightarrow> int" where
  "digit_value c = int (of_char c) - 48"

definition py_int :: "string \<Rightarrow> nid_error + int" where
  "py_int s =
     (if s \<noteq> [] \<and> list_all is_decimal s
      then Inr (foldl (\<lambda>acc c. 10 * acc + digit_value c) 0 s)
      else Inl ValueError)"

text \<open>The slice \<^verbatim>\<open>s[i:j]\<close> for \<open>0 \<le> i \<le> j\<close>; it is clipped to the string, as in Python.\<close>

definition slice :: "string \<Rightarrow> nat \<Rightarrow> nat \<Rightarrow> string" where
  "slice s i j = take (j - i) (drop i s)"

text \<open>
  \<^verbatim>\<open>datetime.date(year, month, day)\<close>: the date when the year is in 1..9999, the month in
  1..12 and the day in 1..(days of that month), \<open>None\<close> for the \<^verbatim>\<open>ValueError\<close> otherwise.
\<close>

record date =
  year :: int
  month :: int
  day :: int

definition is_leap :: "int \<Rightarrow> bool" where
  "is_leap y = (y mod 4 = 0 \<and> (y mod 100 \<noteq> 0 \<or> y mod 400 = 0))"

definition days_in_month :: "int \<Rightarrow> int \<Rightarrow> int" where
  "days_in_month y m =
     (if m = 2 then (if is_leap y then 29 else 28)
      else if m = 4 \<or> m = 6 \<or> m = 9 \<or> m = 11 then 30
      else 31)"

definition py_date :: "int \<Rightarrow> int \<Rightarrow> int \<Rightarrow> date option" where
  "py_date y m d =
     (if 1 \<le> y \<and> y \<le> 9999 \<and> 1 \<le> m \<and> m \<le> 12 \<and> 1 \<le> d \<and> d \<le> days_in_month y m
      then Some \<lparr>year = y, month = m, day = d\<rparr>
      else None)"

record NationalIDDetails =
  birth_date :: date
  gender :: string
  governorate_code :: string
  governorate_name :: string

definition GOVERNORATE_CODES :: "(string \<times> string) list" where
  "GOVERNORATE_CODES =
     [(''01'', ''Cairo''), (''02'', ''Alexandria''), (''03'', ''Port Said''), (''04'', ''Suez''),
      (''11'', ''Damietta''), (''12'', ''Dakahlia''), (''13'', ''Sharkia''),
      (''14'', ''Qalyubia''), (''15'', ''Kafr El Sheikh''), (''16'', ''Gharbia''),
      (''17'', ''Monufia''), (''18'', ''Beheira''), (''19'', ''Ismailia''), (''21'', ''Giza''),
      (''22'', ''Beni Suef''), (''23'', ''Fayoum''), (''24'', ''Minya''), (''25'', ''Assiut''),
      (''26'', ''Sohag''), (''27'', ''Qena''), (''28'', ''Aswan''), (''29'', ''Luxor''),
      (''31'', ''Red Sea''), (''32'', ''New Valley''), (''33'', ''Matrouh''),
      (''34'', ''North Sinai''), (''35'', ''South Sinai''), (''88'', ''Foreign Residents'')]"

definition century_map :: "(char \<times> int) list" where
  "century_map = [(CHR ''2'', 1900), (CHR ''3'', 2000)]"

text \<open>
  \<^verbatim>\<open>parse_national_id\<close>. The argument is a \<^verbatim>\<open>str\<close> by its type here, so the
  \<^verbatim>\<open>isinstance\<close> test passes. The first test is the source's
  \<^verbatim>\<open>len(stripped) != 14 or not stripped.isdigit()\<close>. The three conversions of the year,
  month and day stand before the \<^verbatim>\<open>try\<close>, so their \<^verbatim>\<open>ValueError\<close> propagates as it is;
  only the one of \<^verbatim>\<open>date(...)\<close> is turned into a validation error.
\<close>

definition parse_national_id :: "string \<Rightarrow> nid_error + NationalIDDetails" where
  "parse_national_id national_id =
     (let stripped = strip national_id in
      if \<not> (length stripped = 14 \<and> isdigit stripped)
      then Inl (NationalIDValidationError ''National ID must be a 14-digit numeric string'')
      else
        case map_of century_map (stripped ! 0) of
          None \<Rightarrow> Inl (NationalIDValidationError ''Unsupported century digit in National ID'')
        | Some century \<Rightarrow>
        case py_int (slice stripped 1 3) of Inl e \<Rightarrow> Inl e | Inr yy \<Rightarrow>
        case py_int (slice stripped 3 5) of Inl e \<Rightarrow> Inl e | Inr mm \<Rightarrow>
        case py_int (slice stripped 5 7) of Inl e \<Rightarrow> Inl e | Inr dd \<Rightarrow>
        case py_date (century + yy) mm dd of
          None \<Rightarrow> Inl (NationalIDValidationError ''Invalid birth date in National ID'')
        | Some bd \<Rightarrow>
        case map_of GOVERNORATE_CODES (slice stripped 7 9) of
          None \<Rightarrow> Inl (NationalIDValidationError ''Unknown governorate code in National ID'')
        | Some name \<Rightarrow>
        if name = []
        then Inl (NationalIDValidationError ''Unknown governorate code in National ID'')
        else
        case py_int [stripped ! 12] of Inl e \<Rightarrow> Inl e | Inr gender_digit \<Rightarrow>
          Inr \<lparr>birth_date = bd,
               gender = (if gender_digit mod 2 \<noteq> 0 then ''male'' else ''female''),
               governorate_code = slice stripped 7 9,
               governorate_name = name\<rparr>)"

section \<open>Key store (app/database.py)\<close>

text \<open>
  A row of the table \<^verbatim>\<open>api_keys\<close>, one field per column (the column \<^verbatim>\<open>key\<close> is the field
  \<open>row_key\<close>). The integer columns are unbounded integers, as Python's are; SQLite stores
  64-bit integers, which a counter that starts at 0 and grows by 1 does not leave. The
  timestamps are the text \<^verbatim>\<open>CURRENT_TIMESTAMP\<close> yields.
\<close>

record ApiKeyRow =
  row_key :: string
  owner :: string
  rate_limit :: int
  total_requests :: int
  created_at :: string
  updated_at :: string

text \<open>
  The database file: \<open>None\<close> while the table \<^verbatim>\<open>api_keys\<close> does not exist, otherwise the
  table as a map from the primary key to its row. A statement on a missing table raises
  \<^verbatim>\<open>sqlite3.OperationalError\<close>. The lock of the class only serialises callers.
\<close>

record Database =
  api_keys :: "(string \<Rightarrow> ApiKeyRow option) option"

datatype db_error = OperationalError

text \<open>The row stored under a key, if the table exists and holds one.\<close>

definition lookup :: "Database \<Rightarrow> string \<Rightarrow> ApiKeyRow option" where
  "lookup db k = (case api_keys db of None \<Rightarrow> None | Some t \<Rightarrow> t k)"

text \<open>
  The statement run for each default pair,
  \<^verbatim>\<open>INSERT INTO api_keys (key, owner, rate_limit) VALUES (?, ?, ?)
  ON CONFLICT(key) DO UPDATE SET owner=excluded.owner\<close>:
  without a row for the key, a row with the three values and the column defaults
  (\<^verbatim>\<open>total_requests\<close> 0, both timestamps the current one); with a row, that row with the
  owner replaced.
\<close>

definition upsert ::
  "string \<Rightarrow> int \<Rightarrow> (string \<Rightarrow> ApiKeyRow option) \<Rightarrow> string \<times> string \<Rightarrow>
   (string \<Rightarrow> ApiKeyRow option)" where
  "upsert now limit t p =
     (case p of (key_value, own) \<Rightarrow>
        (case t key_value of
           None \<Rightarrow>
             t(key_value \<mapsto>
               \<lparr>row_key = key_value, owner = own, rate_limit = limit, total_requests = 0,
                created_at = now, updated_at = now\<rparr>)
         | Some r \<Rightarrow> t(key_value \<mapsto> r\<lparr>owner := own\<rparr>)))"

text \<open>
  \<^verbatim>\<open>Database.initialise(default_keys, rate_limit)\<close>: \<^verbatim>\<open>CREATE TABLE IF NOT EXISTS\<close> makes
  a missing table an empty one and leaves an existing one as it is; then the loop runs
  the statement above for each pair in order. \<open>now\<close> is the reading of
  \<^verbatim>\<open>CURRENT_TIMESTAMP\<close> during the call.
\<close>

definition initialise :: "Database \<Rightarrow> string \<Rightarrow> (string \<times> string) list \<Rightarrow> int \<Rightarrow> Database" where
  "initialise self now default_keys limit =
     \<lparr>api_keys =
        Some (foldl (upsert now limit)
                (case api_keys self of None \<Rightarrow> Map.empty | Some t \<Rightarrow> t) default_keys)\<rparr>"

text \<open>
  \<^verbatim>\<open>Database.get_api_key(key)\<close> returns \<^verbatim>\<open>dict(row)\<close> for the selected columns
  \<^verbatim>\<open>key, owner, rate_limit, total_requests\<close>, or \<^verbatim>\<open>None\<close>.
\<close>

record ApiKeyDict =
  dict_key :: string
  dict_owner :: string
  dict_rate_limit :: int
  dict_total_requests :: int

definition get_api_key :: "Database \<Rightarrow> string \<Rightarrow> db_error + ApiKeyDict option" where
  "get_api_key self k =
     (case api_keys self of
        None \<Rightarrow> Inl OperationalError
      | Some t \<Rightarrow>
          Inr (case t k of
                 None \<Rightarrow> None
               | Some r \<Rightarrow>
                   Some \<lparr>dict_key = row_key r, dict_owner = owner r,
                         dict_rate_limit = rate_limit r,
                         dict_total_requests = total_requests r\<rparr>))"

text \<open>
  \<^verbatim>\<open>Database.increment_usage(key)\<close>:
  \<^verbatim>\<open>UPDATE api_keys SET total_requests = total_requests + 1, updated_at = CURRENT_TIMESTAMP
  WHERE key = ?\<close>. The update touches the row of the key, or no row. The method has no
  handler, so the error of a missing table reaches the caller. The result is the database
  after the call.
\<close>

definition increment_usage :: "Database \<Rightarrow> string \<Rightarrow> string \<Rightarrow> db_error + Database" where
  "increment_usage self now k =
     (case api_keys self of
        None \<Rightarrow> Inl OperationalError
      | Some t \<Rightarrow>
          (case t k of
             None \<Rightarrow> Inr self
           | Some r \<Rightarrow>
               Inr \<lparr>api_keys =
                     Some (t(k \<mapsto> r\<lparr>total_requests := total_requests r + 1,
                                     updated_at := now\<rparr>))\<rparr>))"

text \<open>\<^verbatim>\<open>Database.get_usage(key)\<close>.\<close>

definition get_usage :: "Database \<Rightarrow> string \<Rightarrow> db_error + int option" where
  "get_usage self k =
     (case api_keys self of
        None \<Rightarrow> Inl OperationalError
      | Some t \<Rightarrow> Inr (map_option total_requests (t k)))"

section \<open>Access gate (app/security.py, get\_current\_api\_key)\<close>

text \<open>
  What the dependency can raise: the \<^verbatim>\<open>HTTPException\<close> it builds, with status code and
  detail, or an error of the database layer that it does not catch.
\<close>

datatype gate_error =
    HTTPException nat string
  | Uncaught db_error

text \<open>The module-level objects \<^verbatim>\<open>database\<close> and \<^verbatim>\<open>rate_limiter\<close> the dependency works on.\<close>

record World =
  database :: Database
  rate_limiter :: RateLimiter

text \<open>
  \<^verbatim>\<open>record.get("rate_limit")\<close>: the column is \<^verbatim>\<open>NOT NULL\<close>, so the value is always there.
\<close>

definition dict_get_rate_limit :: "ApiKeyDict \<Rightarrow> int option" where
  "dict_get_rate_limit d = Some (dict_rate_limit d)"

text \<open>
  \<^verbatim>\<open>get_current_api_key(increment_usage=track)\<close> returns the closure \<^verbatim>\<open>dependency\<close>; the
  model is that closure applied to the header value \<open>api_key\<close> (\<open>None\<close> when the header
  \<^verbatim>\<open>X-API-Key\<close> is absent, as \<^verbatim>\<open>auto_error=False\<close> makes it). \<open>default_limit\<close> is
  \<^verbatim>\<open>settings.api_rate_limit_per_minute\<close>, \<open>tm\<close> the monotonic clock read by the limiter,
  \<open>fsub\<close> its float subtraction and \<open>now\<close> the timestamp of the database. The result is the returned record or the
  exception, with the world after the call.
\<close>

definition get_current_api_key ::
  "(real \<Rightarrow> real \<Rightarrow> real) \<Rightarrow> bool \<Rightarrow> int \<Rightarrow> World \<Rightarrow> real \<Rightarrow> string \<Rightarrow> string option \<Rightarrow>
   (gate_error + ApiKeyDict) \<times> World" where
  "get_current_api_key fsub track default_limit w tm now api_key =
     (case api_key of
        None \<Rightarrow> (Inl (HTTPException 401 ''Missing API key''), w)
      | Some k \<Rightarrow>
          if k = [] then (Inl (HTTPException 401 ''Missing API key''), w)
          else
            (case get_api_key (database w) k of
               Inl e \<Rightarrow> (Inl (Uncaught e), w)
             | Inr None \<Rightarrow> (Inl (HTTPException 401 ''Invalid API key''), w)
             | Inr (Some rec) \<Rightarrow>
                 (let limit = (case dict_get_rate_limit rec of
                                 Some l \<Rightarrow> l
                               | None \<Rightarrow> default_limit)
                  in case check fsub (rate_limiter w) tm k limit of
                       (Inl RateLimitExceededError, rl) \<Rightarrow>
                         (Inl (HTTPException 429 ''Rate limit exceeded''),
                          w\<lparr>rate_limiter := rl\<rparr>)
                     | (Inr u, rl) \<Rightarrow>
                         if track
                         then (case increment_usage (database w) now k of
                                 Inl e \<Rightarrow> (Inl (Uncaught e), w\<lparr>rate_limiter := rl\<rparr>)
                               | Inr db \<Rightarrow>
                                   (Inr rec, \<lparr>database = db, rate_limiter = rl\<rparr>))
                         else (Inr rec, w\<lparr>rate_limiter := rl\<rparr>))))"

text \<open>The usage counter of a key, as the store holds it.\<close>

definition usage :: "Database \<Rightarrow> string \<Rightarrow> int option" where
  "usage db k = map_option total_requests (lookup db k)"

text \<open>
  A request is admitted when it presents a non-empty key, the store has a row for the
  key, and the limiter's check with the row's limit returns: the three tests of the
  dependency before it counts usage.
\<close>

definition admitted ::
  "(real \<Rightarrow> real \<Rightarrow> real) \<Rightarrow> World \<Rightarrow> real \<Rightarrow> string option \<Rightarrow> bool" where
  "admitted fsub w tm api_key =
     (case api_key of
        None \<Rightarrow> False
      | Some k \<Rightarrow>
          k \<noteq> [] \<and>
          (case lookup (database w) k of
             None \<Rightarrow> False
           | Some r \<Rightarrow> allowed (fst (check fsub (rate_limiter w) tm k (rate_limit r)))))"

section \<open>Properties of the rate limiter\<close>

lemma check_other_key:
  "key \<noteq> k \<Longrightarrow> state (snd (check fsub self now key limit)) k = state self k"
  by (simp add: check_def split: option.split)

lemma check_window_seconds:
  "window_seconds (snd (check fsub self now key limit)) = window_seconds self"
  by (simp add: check_def split: option.split)

text \<open>
  The calls of a run made for \<open>k\<close> while its window is open (for each, the elapsed time
  the program computes from the window's start is below \<open>window_seconds\<close>) with one
  limit \<open>L\<close>: the first
  \<open>L - count\<close> of them return, every later one raises. Calls for other keys may be
  interleaved; they leave the state of \<open>k\<close> alone.
\<close>

lemma in_window_run:
  "state self k = Some st \<Longrightarrow>
   \<forall>c \<in> set calls. fst (snd c) = k \<longrightarrow>
       snd (snd c) = L \<and> fsub (fst c) (start_time st) < real_of_int (window_seconds self) \<Longrightarrow>
   outcomes_for k calls (fst (check_seq fsub self calls)) =
     replicate (min (length (filter (\<lambda>c. fst (snd c) = k) calls)) (nat (L - count st))) (Inr ()) @
     replicate (length (filter (\<lambda>c. fst (snd c) = k) calls) - nat (L - count st))
       (Inl RateLimitExceededError)"
proof (induction calls arbitrary: self st)
  case Nil
  then show ?case by simp
next
  case (Cons c calls)
  obtain now key limit where c: "c = (now, key, limit)" by (cases c) auto
  obtain r self' where ch: "check fsub self now key limit = (r, self')" by (cases "check fsub self now key limit") auto
  obtain rs self'' where cs: "check_seq fsub self' calls = (rs, self'')" by (cases "check_seq fsub self' calls") auto
  have ws: "window_seconds self' = window_seconds self"
    using check_window_seconds [of fsub self now key limit] ch by simp
  show ?case
  proof (cases "key = k")
    case False
    then have st': "state self' k = Some st"
      using check_other_key [of key k fsub self now limit] ch Cons.prems(1) by simp
    have "outcomes_for k calls (fst (check_seq fsub self' calls)) =
      replicate (min (length (filter (\<lambda>c. fst (snd c) = k) calls)) (nat (L - count st))) (Inr ()) @
      replicate (length (filter (\<lambda>c. fst (snd c) = k) calls) - nat (L - count st))
        (Inl RateLimitExceededError)"
      using Cons.IH [OF st'] Cons.prems(2) ws by simp
    then show ?thesis using False c ch cs by simp
  next
    case True
    have lim: "limit = L" and inw: "fsub now (start_time st) < real_of_int (window_seconds self)"
      using Cons.prems(2) c True by auto
    show ?thesis
    proof (cases "count st \<ge> L")
      case full: True
      then have ch': "r = Inl RateLimitExceededError" "self' = self"
        using ch Cons.prems(1) True lim inw by (auto simp: check_def)
      have "outcomes_for k calls (fst (check_seq fsub self calls)) =
        replicate (min (length (filter (\<lambda>c. fst (snd c) = k) calls)) (nat (L - count st))) (Inr ()) @
        replicate (length (filter (\<lambda>c. fst (snd c) = k) calls) - nat (L - count st))
          (Inl RateLimitExceededError)"
        using Cons.IH [OF Cons.prems(1)] Cons.prems(2) by simp
      then show ?thesis using full True c ch cs ch' by simp
    next
      case room: False
      let ?st' = "st\<lparr>count := count st + 1\<rparr>"
      have ch': "r = Inr ()" "state self' k = Some ?st'"
        using ch Cons.prems(1) True lim inw room by (auto simp: check_def)
      have "outcomes_for k calls (fst (check_seq fsub self' calls)) =
        replicate (min (length (filter (\<lambda>c. fst (snd c) = k) calls)) (nat (L - count ?st'))) (Inr ()) @
        replicate (length (filter (\<lambda>c. fst (snd c) = k) calls) - nat (L - count ?st'))
          (Inl RateLimitExceededError)"
        using Cons.IH [OF ch'(2)] Cons.prems(2) ws by simp
      moreover have "nat (L - count st) = Suc (nat (L - count ?st'))"
        using room by simp
      ultimately show ?thesis using True c ch cs ch' by simp
    qed
  qed
qed

text \<open>
  The same run when every call for \<open>k\<close> carries a limit that the count already
  reaches: all of them raise.
\<close>

lemma in_window_all_rejected:
  "state self k = Some st \<Longrightarrow>
   \<forall>c \<in> set calls. fst (snd c) = k \<longrightarrow>
       snd (snd c) \<le> count st \<and> fsub (fst c) (start_time st) < real_of_int (window_seconds self) \<Longrightarrow>
   outcomes_for k calls (fst (check_seq fsub self calls)) =
     replicate (length (filter (\<lambda>c. fst (snd c) = k) calls)) (Inl RateLimitExceededError)"
proof (induction calls arbitrary: self)
  case Nil
  then show ?case by simp
next
  case (Cons c calls)
  obtain now key limit where c: "c = (now, key, limit)" by (cases c) auto
  obtain r self' where ch: "check fsub self now key limit = (r, self')"
    by (cases "check fsub self now key limit") auto
  obtain rs self'' where cs: "check_seq fsub self' calls = (rs, self'')"
    by (cases "check_seq fsub self' calls") auto
  have ws: "window_seconds self' = window_seconds self"
    using check_window_seconds [of fsub self now key limit] ch by simp
  have st': "state self' k = Some st \<and> (key = k \<longrightarrow> r = Inl RateLimitExceededError)"
  proof (cases "key = k")
    case False
    then show ?thesis
      using check_other_key [of key k fsub self now limit] ch Cons.prems(1) by simp
  next
    case True
    then have "limit \<le> count st" "fsub now (start_time st) < real_of_int (window_seconds self)"
      using Cons.prems(2) c by auto
    then show ?thesis using ch Cons.prems(1) True by (auto simp: check_def)
  qed
  have "outcomes_for k calls (fst (check_seq fsub self' calls)) =
     replicate (length (filter (\<lambda>c. fst (snd c) = k) calls)) (Inl RateLimitExceededError)"
    using Cons.IH [of self'] st' Cons.prems(2) ws by simp
  then show ?case using c ch cs st' by simp
qed

text \<open>A call that opens a window returns and stores the new window with count 1.\<close>

lemma check_opens:
  "opens_window fsub self now key \<Longrightarrow>
   check fsub self now key limit =
     (Inr (), self\<lparr>state := (state self)(key \<mapsto> \<lparr>start_time = now, count = 1\<rparr>)\<rparr>)"
  by (cases "state self key") (simp_all add: check_def opens_window_def)

lemma filter_allowed_replicate:
  "filter allowed (replicate m (Inr ()) @ replicate n (Inl RateLimitExceededError)) =
     replicate m (Inr ())"
  by (simp add: allowed_def)

text \<open>
  Claim C1, amended. Let a call for key \<open>k\<close> at time \<open>t0\<close> open a window, and let the
  calls that follow, whenever they are for \<open>k\<close>, carry the limit \<open>L\<close> and fall in that
  window: the elapsed time the program computes for them, the float difference
  \<open>fsub t t0\<close>, is below \<open>window_seconds\<close> (calls for other keys are unconstrained). If
  \<open>1 \<le> L\<close>, at most \<open>L\<close> of the calls for \<open>k\<close> in the window are allowed: exactly the
  first \<open>L\<close> return, and the \<open>(L+1)\<close>th and every later one raise
  \<^verbatim>\<open>RateLimitExceededError\<close>. This holds for every subtraction \<open>fsub\<close>, so for the
  rounding one of floats.
\<close>

theorem fixed_window_limit:
  assumes "1 \<le> L"
    and "opens_window fsub self t0 k"
    and "\<forall>c \<in> set calls. fst (snd c) = k \<longrightarrow>
           snd (snd c) = L \<and> fsub (fst c) t0 < real_of_int (window_seconds self)"
    and "outs = outcomes_for k ((t0, k, L) # calls) (fst (check_seq fsub self ((t0, k, L) # calls)))"
  shows "length (filter allowed outs) \<le> nat L \<and>
         (\<forall>i < length outs. outs ! i = (if i < nat L then Inr () else Inl RateLimitExceededError))"
proof -
  let ?self' = "self\<lparr>state := (state self)(k \<mapsto> \<lparr>start_time = t0, count = 1\<rparr>)\<rparr>"
  let ?n = "length (filter (\<lambda>c. fst (snd c) = k) calls)"
  have ch: "check fsub self t0 k L = (Inr (), ?self')"
    using check_opens [OF assms(2)] .
  have st: "state ?self' k = Some \<lparr>start_time = t0, count = 1\<rparr>" by simp
  have inw: "\<forall>c \<in> set calls. fst (snd c) = k \<longrightarrow>
      snd (snd c) = L \<and>
      fsub (fst c) (start_time \<lparr>start_time = t0, count = 1\<rparr>) < real_of_int (window_seconds ?self')"
    using assms(3) by simp
  have rest: "outcomes_for k calls (fst (check_seq fsub ?self' calls)) =
      replicate (min ?n (nat (L - 1))) (Inr ()) @
      replicate (?n - nat (L - 1)) (Inl RateLimitExceededError)"
    using in_window_run [where fsub = fsub, OF st inw] by simp
  have outs: "outs = replicate (Suc (min ?n (nat (L - 1)))) (Inr ()) @
      replicate (?n - nat (L - 1)) (Inl RateLimitExceededError)"
    using assms(4) ch rest by (simp split: prod.splits)
  have L: "nat L = Suc (nat (L - 1))" using assms(1) by simp
  have "length (filter allowed outs) = Suc (min ?n (nat (L - 1)))"
    unfolding outs filter_allowed_replicate by simp
  then have a: "length (filter allowed outs) \<le> nat L" using L by simp
  have b: "outs ! i = (if i < nat L then Inr () else Inl RateLimitExceededError)"
    if "i < length outs" for i
    using that unfolding outs L by (auto simp: nth_append nth_Cons split: nat.splits)
  from a b show ?thesis by blast
qed


text \<open>
  The scenario of the tests (limit 2, window 60 s, key \<^verbatim>\<open>rate-key\<close>): the first two
  calls return and the third raises. The clock readings are 0, 1, 2 and 59; their
  differences are floats, so the float subtraction is the exact one, \<open>(-)\<close>, there.
\<close>

theorem fixed_window_limit_witness:
  "outcomes_for ''rate-key''
     [(0, ''rate-key'', 2), (1, ''rate-key'', 2), (2, ''test-key'', 2), (59, ''rate-key'', 2)]
     (fst (check_seq (-) \<lparr>window_seconds = 60, state = Map.empty\<rparr>
        [(0, ''rate-key'', 2), (1, ''rate-key'', 2), (2, ''test-key'', 2), (59, ''rate-key'', 2)]))
     = [Inr (), Inr (), Inl RateLimitExceededError] \<and>
   length (filter allowed (outcomes_for ''rate-key''
     [(0, ''rate-key'', 2), (1, ''rate-key'', 2), (2, ''test-key'', 2), (59, ''rate-key'', 2)]
     (fst (check_seq (-) \<lparr>window_seconds = 60, state = Map.empty\<rparr>
        [(0, ''rate-key'', 2), (1, ''rate-key'', 2), (2, ''test-key'', 2), (59, ''rate-key'', 2)]))))
     \<le> nat 2"
proof -
  let ?self = "\<lparr>window_seconds = 60, state = Map.empty\<rparr>"
  let ?calls = "[(1, ''rate-key'', 2), (2, ''test-key'', 2), (59, ''rate-key'', 2)]
                  :: (real \<times> string \<times> int) list"
  let ?outs = "outcomes_for ''rate-key'' ((0, ''rate-key'', 2) # ?calls)
                 (fst (check_seq (-) ?self ((0, ''rate-key'', 2) # ?calls)))"
  have h1: "(1::int) \<le> 2" by simp
  have h2: "opens_window (-) ?self 0 ''rate-key''" by (simp add: opens_window_def)
  have h3: "\<forall>c \<in> set ?calls. fst (snd c) = ''rate-key'' \<longrightarrow>
      snd (snd c) = 2 \<and> fst c - 0 < real_of_int (window_seconds ?self)" by simp
  have h4: "?outs = ?outs" by simp
  show ?thesis
    using fixed_window_limit [where fsub = "(-)", OF h1 h2 h3 h4] by (simp add: check_def allowed_def)
qed

text \<open>
  Claim C1 as stated fails for a limit below 1: with limit 0 the call that opens the
  window is allowed, so one call is allowed in the window, more than the limit. The
  limiter holds no state, so no subtraction is computed.
\<close>

theorem zero_limit_admits_one:
  "\<not> length (filter allowed (outcomes_for ''k'' [(0, ''k'', 0)]
        (fst (check_seq (-) \<lparr>window_seconds = 60, state = Map.empty\<rparr> [(0, ''k'', 0)]))))
      \<le> nat 0"
  by (simp add: check_def allowed_def)

text \<open>
  Claim C6. A call for which the elapsed time since the window's start, as the program
  computes it, equals \<open>window_seconds\<close> returns and replaces the state by a fresh window
  with count 1, whatever the count of the old window and whatever the limit. (When the
  exact difference of the two readings is \<open>window_seconds\<close>, it is a float and the float
  subtraction returns it, so this is that case too.)
\<close>

theorem window_boundary_starts_fresh:
  "state self key = Some st \<Longrightarrow>
   fsub now (start_time st) = real_of_int (window_seconds self) \<Longrightarrow>
   check fsub self now key limit =
     (Inr (), self\<lparr>state := (state self)(key \<mapsto> \<lparr>start_time = now, count = 1\<rparr>)\<rparr>)"
  by (simp add: check_def)

text \<open>
  An exhausted window (count 2 of limit 2) started at 5; the call at 65 is allowed. The
  float difference of 65 and 5 is exactly 60.
\<close>

theorem window_boundary_starts_fresh_witness:
  "check (-) \<lparr>window_seconds = 60, state = [''k'' \<mapsto> \<lparr>start_time = 5, count = 2\<rparr>]\<rparr> 65 ''k'' 2 =
     (Inr (), \<lparr>window_seconds = 60, state = [''k'' \<mapsto> \<lparr>start_time = 65, count = 1\<rparr>]\<rparr>)"
  using window_boundary_starts_fresh
    [where fsub = "(-)" and
       self = "\<lparr>window_seconds = 60, state = [''k'' \<mapsto> \<lparr>start_time = 5, count = 2\<rparr>]\<rparr>"
       and key = "''k''" and st = "\<lparr>start_time = 5, count = 2\<rparr>" and now = 65 and limit = 2]
  by simp

text \<open>
  Claim C7. When \<^verbatim>\<open>check\<close> raises, the limiter is the one it was called on: the
  window start and the count of every key are unchanged.
\<close>

theorem rejected_leaves_state:
  "fst (check fsub self now key limit) = Inl e \<Longrightarrow> snd (check fsub self now key limit) = self"
  by (auto simp: check_def split: option.splits if_splits)

text \<open>
  The third call of an exhausted window, at 64 in a window started at 5, raises and
  changes nothing.
\<close>

theorem rejected_leaves_state_witness:
  "fst (check (-) \<lparr>window_seconds = 60, state = [''k'' \<mapsto> \<lparr>start_time = 5, count = 2\<rparr>]\<rparr> 64 ''k'' 2)
     = Inl RateLimitExceededError \<and>
   snd (check (-) \<lparr>window_seconds = 60, state = [''k'' \<mapsto> \<lparr>start_time = 5, count = 2\<rparr>]\<rparr> 64 ''k'' 2)
     = \<lparr>window_seconds = 60, state = [''k'' \<mapsto> \<lparr>start_time = 5, count = 2\<rparr>]\<rparr>"
proof -
  let ?self = "\<lparr>window_seconds = 60, state = [''k'' \<mapsto> \<lparr>start_time = 5, count = 2\<rparr>]\<rparr>"
  have h: "fst (check (-) ?self 64 ''k'' 2) = Inl RateLimitExceededError"
    by (simp add: check_def)
  from h rejected_leaves_state [OF h] show ?thesis by simp
qed

text \<open>
  Claim C10. With a limit of 0 or less, the call for a key that has no window state
  returns and creates a window with count 1; the calls for the key that follow within
  that window (the elapsed time the program computes for them, \<open>fsub t now\<close>, is below
  \<open>window_seconds\<close>), with limits of 0 or less, all raise.
\<close>

theorem nonpositive_limit_first_allowed:
  assumes "limit \<le> 0"
    and "state self key = None"
    and "\<forall>c \<in> set calls. fst (snd c) = key \<longrightarrow>
           snd (snd c) \<le> 0 \<and> fsub (fst c) now < real_of_int (window_seconds self)"
  shows "check fsub self now key limit =
           (Inr (), self\<lparr>state := (state self)(key \<mapsto> \<lparr>start_time = now, count = 1\<rparr>)\<rparr>) \<and>
         outcomes_for key calls (fst (check_seq fsub (snd (check fsub self now key limit)) calls)) =
           replicate (length (filter (\<lambda>c. fst (snd c) = key) calls)) (Inl RateLimitExceededError)"
proof -
  let ?self' = "self\<lparr>state := (state self)(key \<mapsto> \<lparr>start_time = now, count = 1\<rparr>)\<rparr>"
  have ch: "check fsub self now key limit = (Inr (), ?self')"
    using assms(2) by (simp add: check_def)
  have st: "state ?self' key = Some \<lparr>start_time = now, count = 1\<rparr>" by simp
  have inw: "\<forall>c \<in> set calls. fst (snd c) = key \<longrightarrow>
      snd (snd c) \<le> count \<lparr>start_time = now, count = 1\<rparr> \<and>
      fsub (fst c) (start_time \<lparr>start_time = now, count = 1\<rparr>) < real_of_int (window_seconds ?self')"
    using assms(3) by auto
  show ?thesis using ch in_window_all_rejected [where fsub = fsub, OF st inw] by simp
qed

text \<open>
  Limit 0 on an empty limiter: allowed at 10, rejected at 11 and at 69. The float
  differences 1 and 59 are exact.
\<close>

theorem nonpositive_limit_first_allowed_witness:
  "check (-) \<lparr>window_seconds = 60, state = Map.empty\<rparr> 10 ''k'' 0 =
     (Inr (), \<lparr>window_seconds = 60, state = [''k'' \<mapsto> \<lparr>start_time = 10, count = 1\<rparr>]\<rparr>) \<and>
   outcomes_for ''k'' [(11, ''k'', 0), (12, ''j'', 0), (69, ''k'', - 3)]
     (fst (check_seq (-) (snd (check (-) \<lparr>window_seconds = 60, state = Map.empty\<rparr> 10 ''k'' 0))
        [(11, ''k'', 0), (12, ''j'', 0), (69, ''k'', - 3)]))
     = [Inl RateLimitExceededError, Inl RateLimitExceededError]"
proof -
  let ?self = "\<lparr>window_seconds = 60, state = Map.empty\<rparr>"
  let ?calls = "[(11, ''k'', 0), (12, ''j'', 0), (69, ''k'', - 3)] :: (real \<times> string \<times> int) list"
  have h1: "(0::int) \<le> 0" by simp
  have h2: "state ?self ''k'' = None" by simp
  have h3: "\<forall>c \<in> set ?calls. fst (snd c) = ''k'' \<longrightarrow>
      snd (snd c) \<le> 0 \<and> fst c - 10 < real_of_int (window_seconds ?self)" by simp
  show ?thesis
    using nonpositive_limit_first_allowed [where fsub = "(-)", OF h1 h2 h3] by (simp add: check_def)
qed

section \<open>Properties of the decoder\<close>

lemma dropWhile_all: "list_all P xs \<Longrightarrow> dropWhile P (xs @ ys) = dropWhile P ys"
  by (induction xs) auto

text \<open>
  Whitespace added before and after a string is removed by \<^verbatim>\<open>strip\<close>, whatever the
  string holds (also when it is itself all whitespace, or has whitespace inside).
\<close>

lemma strip_padding:
  assumes p: "list_all is_space p" and q: "list_all is_space q"
  shows "strip (p @ s @ q) = strip s"
proof -
  have front: "dropWhile is_space (p @ s @ q) = dropWhile is_space (s @ q)"
    using p by (rule dropWhile_all)
  show ?thesis
  proof (cases "list_all is_space s")
    case True
    have "dropWhile is_space (s @ q) = dropWhile is_space (q @ [])"
      using True by (simp add: dropWhile_all)
    also have "\<dots> = []" using q by (simp only: dropWhile_all) simp
    finally have l: "dropWhile is_space (s @ q) = []" .
    have "dropWhile is_space (s @ []) = dropWhile is_space []"
      using True by (rule dropWhile_all)
    then have r: "dropWhile is_space s = []" by simp
    show ?thesis by (simp add: strip_def front l r)
  next
    case False
    then obtain x where x: "x \<in> set s" "\<not> is_space x"
      by (auto simp: list_all_iff)
    have mid: "dropWhile is_space (s @ q) = dropWhile is_space s @ q"
      using x by (rule dropWhile_append1)
    have "dropWhile is_space (rev (dropWhile is_space s @ q)) =
          dropWhile is_space (rev q @ rev (dropWhile is_space s))" by simp
    also have "\<dots> = dropWhile is_space (rev (dropWhile is_space s))"
      using q by (intro dropWhile_all) (simp add: list_all_iff)
    finally show ?thesis by (simp add: strip_def front mid)
  qed
qed

text \<open>
  Claim C9. For every string \<open>s\<close> and all whitespace paddings \<open>p\<close> and \<open>q\<close> (characters
  that \<^verbatim>\<open>str.strip()\<close> removes), \<^verbatim>\<open>parse_national_id\<close> gives on \<open>p + s + q\<close> the result
  it gives on \<open>s\<close>, be it the details or the error.
\<close>

theorem parse_ignores_padding:
  "list_all is_space p \<Longrightarrow> list_all is_space q \<Longrightarrow>
   parse_national_id (p @ s @ q) = parse_national_id s"
  by (simp add: parse_national_id_def strip_padding)

text \<open>A 14-digit ID with two spaces before it and one after is accepted.\<close>

theorem parse_ignores_padding_witness:
  "parse_national_id (''  '' @ ''30101012100013'' @ '' '') =
     Inr \<lparr>birth_date = \<lparr>year = 2001, month = 1, day = 1\<rparr>, gender = ''male'',
          governorate_code = ''21'', governorate_name = ''Giza''\<rparr>"
proof -
  have p: "list_all is_space ''  ''" by code_simp
  have q: "list_all is_space '' ''" by code_simp
  have v: "parse_national_id ''30101012100013'' =
     Inr \<lparr>birth_date = \<lparr>year = 2001, month = 1, day = 1\<rparr>, gender = ''male'',
          governorate_code = ''21'', governorate_name = ''Giza''\<rparr>" by code_simp
  show ?thesis
    using parse_ignores_padding [OF p q, of "''30101012100013''"] v by simp
qed

text \<open>
  Claim C8. Decoding \<^verbatim>\<open>30101012100013\<close> succeeds with birth date 2001-01-01,
  governorate code \<^verbatim>\<open>21\<close> (Giza) and gender \<^verbatim>\<open>male\<close>.
\<close>

theorem decode_example:
  "parse_national_id ''30101012100013'' =
     Inr \<lparr>birth_date = \<lparr>year = 2001, month = 1, day = 1\<rparr>, gender = ''male'',
          governorate_code = ''21'', governorate_name = ''Giza''\<rparr>"
  by code_simp

section \<open>Properties of the key store\<close>

text \<open>
  The table after the loop of \<^verbatim>\<open>initialise\<close>, key by key: a key outside the defaults
  keeps what it had; a key among them gets the owner of its last pair, on the row it had
  or on a new row with no usage.
\<close>

lemma foldl_upsert:
  "foldl (upsert now limit) t dks k =
     (case map_of (rev dks) k of
        None \<Rightarrow> t k
      | Some own \<Rightarrow>
          Some (case t k of
                  None \<Rightarrow> \<lparr>row_key = k, owner = own, rate_limit = limit, total_requests = 0,
                            created_at = now, updated_at = now\<rparr>
                | Some r \<Rightarrow> r\<lparr>owner := own\<rparr>))"
proof (induction dks rule: rev_induct)
  case Nil
  then show ?case by simp
next
  case (snoc p dks)
  obtain kv own where p: "p = (kv, own)" by (cases p) auto
  show ?case
  proof (cases "k = kv")
    case True
    then show ?thesis
      using snoc p by (auto simp: upsert_def split: option.splits)
  next
    case False
    then show ?thesis
      using snoc p by (auto simp: upsert_def split: option.splits)
  qed
qed

lemma lookup_initialise:
  "lookup (initialise db now dks limit) k =
     (case map_of (rev dks) k of
        None \<Rightarrow> lookup db k
      | Some own \<Rightarrow>
          Some (case lookup db k of
                  None \<Rightarrow> \<lparr>row_key = k, owner = own, rate_limit = limit, total_requests = 0,
                            created_at = now, updated_at = now\<rparr>
                | Some r \<Rightarrow> r\<lparr>owner := own\<rparr>))"
  by (cases "api_keys db")
    (simp_all add: lookup_def initialise_def foldl_upsert split: option.splits)

text \<open>A second run with the same defaults changes nothing, whatever its clock and limit.\<close>

lemma initialise_twice:
  "initialise (initialise db now dks limit) now' dks limit' = initialise db now dks limit"
proof -
  let ?t = "case api_keys db of None \<Rightarrow> Map.empty | Some t \<Rightarrow> t"
  have "foldl (upsert now' limit') (foldl (upsert now limit) ?t dks) dks k =
        foldl (upsert now limit) ?t dks k" for k
    by (simp add: foldl_upsert split: option.splits)
  then have "foldl (upsert now' limit') (foldl (upsert now limit) ?t dks) dks =
        foldl (upsert now limit) ?t dks" by (rule ext)
  then show ?thesis by (simp add: initialise_def)
qed

text \<open>
  Claim C2. When \<^verbatim>\<open>initialise\<close> runs and the store already holds a row for a key, the
  row it holds afterwards is that row with at most the owner replaced (by the owner of
  the key's last default pair, when it has one): \<^verbatim>\<open>rate_limit\<close>, \<^verbatim>\<open>total_requests\<close> and
  the timestamps are kept. In particular a second run with the same defaults leaves the
  whole store, and so every \<^verbatim>\<open>total_requests\<close>, as the first run left it.
\<close>

theorem initialise_keeps_existing:
  "(lookup db k = Some r \<longrightarrow>
      lookup (initialise db now default_keys limit) k =
        Some (r\<lparr>owner := (case map_of (rev default_keys) k of
                             None \<Rightarrow> owner r | Some own \<Rightarrow> own)\<rparr>)) \<and>
   initialise (initialise db now default_keys limit) now' default_keys limit' =
     initialise db now default_keys limit"
  by (simp add: lookup_initialise initialise_twice split: option.splits)

text \<open>A key with 7 requests and limit 5 keeps both when the defaults name it again.\<close>

theorem initialise_keeps_existing_witness:
  "lookup (initialise
       \<lparr>api_keys = Some [''test-key'' \<mapsto>
          \<lparr>row_key = ''test-key'', owner = ''Old'', rate_limit = 5, total_requests = 7,
           created_at = ''t0'', updated_at = ''t1''\<rparr>]\<rparr>
       ''t2'' [(''test-key'', ''Test User''), (''rate-key'', ''Rate User'')] 2) ''test-key'' =
     Some \<lparr>row_key = ''test-key'', owner = ''Test User'', rate_limit = 5, total_requests = 7,
           created_at = ''t0'', updated_at = ''t1''\<rparr>"
proof -
  let ?r = "\<lparr>row_key = ''test-key'', owner = ''Old'', rate_limit = 5, total_requests = 7,
           created_at = ''t0'', updated_at = ''t1''\<rparr>"
  let ?db = "\<lparr>api_keys = Some [''test-key'' \<mapsto> ?r]\<rparr>"
  have h: "lookup ?db ''test-key'' = Some ?r" by (simp add: lookup_def)
  show ?thesis
    using h initialise_keeps_existing
      [where db = ?db and k = "''test-key''" and r = ?r and now = "''t2''" and
         default_keys = "[(''test-key'', ''Test User''), (''rate-key'', ''Rate User'')]" and
         limit = 2 and now' = "''t3''" and limit' = 2]
    by simp
qed

text \<open>
  Claim C4, amended. On a store whose table exists, \<^verbatim>\<open>increment_usage(key)\<close> returns
  normally; for a key with a row, the row afterwards has \<^verbatim>\<open>total_requests\<close> one higher
  and \<^verbatim>\<open>updated_at\<close> set to the current timestamp, and every other key keeps its row;
  for a key without a row the store is unchanged.
\<close>

theorem increment_usage_adds_one:
  assumes "api_keys db = Some t"
  shows "case lookup db k of
           None \<Rightarrow> increment_usage db now k = Inr db
         | Some r \<Rightarrow>
             (\<exists>db'. increment_usage db now k = Inr db' \<and>
                lookup db' k =
                  Some (r\<lparr>total_requests := total_requests r + 1, updated_at := now\<rparr>) \<and>
                (\<forall>k'. k' \<noteq> k \<longrightarrow> lookup db' k' = lookup db k'))"
  using assms by (auto simp: lookup_def increment_usage_def split: option.splits)

text \<open>A store with one key at 7 requests: an unknown key changes nothing, the key goes to 8.\<close>

theorem increment_usage_adds_one_witness:
  "lookup \<lparr>api_keys = Some [''test-key'' \<mapsto>
          \<lparr>row_key = ''test-key'', owner = ''Test User'', rate_limit = 2, total_requests = 7,
           created_at = ''t0'', updated_at = ''t1''\<rparr>]\<rparr> ''nope'' = None \<and>
   increment_usage \<lparr>api_keys = Some [''test-key'' \<mapsto>
          \<lparr>row_key = ''test-key'', owner = ''Test User'', rate_limit = 2, total_requests = 7,
           created_at = ''t0'', updated_at = ''t1''\<rparr>]\<rparr> ''t2'' ''nope'' =
     Inr \<lparr>api_keys = Some [''test-key'' \<mapsto>
          \<lparr>row_key = ''test-key'', owner = ''Test User'', rate_limit = 2, total_requests = 7,
           created_at = ''t0'', updated_at = ''t1''\<rparr>]\<rparr> \<and>
   (\<exists>db'. increment_usage \<lparr>api_keys = Some [''test-key'' \<mapsto>
          \<lparr>row_key = ''test-key'', owner = ''Test User'', rate_limit = 2, total_requests = 7,
           created_at = ''t0'', updated_at = ''t1''\<rparr>]\<rparr> ''t2'' ''test-key'' = Inr db' \<and>
      lookup db' ''test-key'' =
        Some \<lparr>row_key = ''test-key'', owner = ''Test User'', rate_limit = 2, total_requests = 8,
           created_at = ''t0'', updated_at = ''t2''\<rparr>)"
proof -
  let ?r = "\<lparr>row_key = ''test-key'', owner = ''Test User'', rate_limit = 2, total_requests = 7,
           created_at = ''t0'', updated_at = ''t1''\<rparr>"
  let ?t = "[''test-key'' \<mapsto> ?r]"
  let ?db = "\<lparr>api_keys = Some ?t\<rparr>"
  have h: "api_keys ?db = Some ?t" by simp
  have a: "lookup ?db ''nope'' = None" by (simp add: lookup_def)
  have b: "lookup ?db ''test-key'' = Some ?r" by (simp add: lookup_def)
  have n: "increment_usage ?db ''t2'' ''nope'' = Inr ?db"
    using increment_usage_adds_one [OF h, where k = "''nope''" and now = "''t2''"] a by simp
  have e: "\<exists>db'. increment_usage ?db ''t2'' ''test-key'' = Inr db' \<and>
      lookup db' ''test-key'' = Some (?r\<lparr>total_requests := total_requests ?r + 1, updated_at := ''t2''\<rparr>)"
    using increment_usage_adds_one [OF h, where k = "''test-key''" and now = "''t2''"] b by auto
  from a n e show ?thesis by simp
qed

text \<open>
  Claim C4 as stated fails: on a database whose table does not exist the key has no row,
  and \<^verbatim>\<open>increment_usage\<close> raises \<^verbatim>\<open>sqlite3.OperationalError\<close> to its caller.
\<close>

theorem increment_usage_raises_without_table:
  "lookup \<lparr>api_keys = None\<rparr> ''test-key'' = None \<and>
   increment_usage \<lparr>api_keys = None\<rparr> ''t2'' ''test-key'' = Inl OperationalError"
  by (simp add: lookup_def increment_usage_def)

section \<open>Properties of the access gate\<close>

text \<open>
  A request that is not admitted (no key, an empty key, an unknown key, or a key the
  limiter rejects) ends in an exception and leaves the store as it was.
\<close>

lemma gate_not_admitted:
  assumes "api_keys (database w) = Some t" and "\<not> admitted fsub w tm api_key"
  shows "isl (fst (get_current_api_key fsub track dl w tm now api_key)) \<and>
         database (snd (get_current_api_key fsub track dl w tm now api_key)) = database w"
proof (cases api_key)
  case None
  then show ?thesis by (simp add: get_current_api_key_def)
next
  case (Some k)
  show ?thesis
  proof (cases "k = []")
    case True
    then show ?thesis using Some by (simp add: get_current_api_key_def)
  next
    case False
    show ?thesis
    proof (cases "t k")
      case None
      then show ?thesis
        using Some False assms(1) by (simp add: get_current_api_key_def get_api_key_def)
    next
      case (Some r)
      obtain res rl where ch: "check fsub (rate_limiter w) tm k (rate_limit r) = (res, rl)"
        by (cases "check fsub (rate_limiter w) tm k (rate_limit r)") auto
      have "\<not> allowed res"
        using assms \<open>api_key = Some k\<close> False Some ch by (simp add: admitted_def lookup_def)
      then have "res = Inl RateLimitExceededError"
        by (cases res) (auto simp: allowed_def intro: rate_error.exhaust)
      then show ?thesis
        using \<open>api_key = Some k\<close> False Some assms(1) ch
        by (simp add: get_current_api_key_def get_api_key_def dict_get_rate_limit_def)
    qed
  qed
qed

text \<open>
  An admitted request returns; the store afterwards is the old one, or, with usage
  tracking, the old one with the row of the key counted up once.
\<close>

lemma gate_admitted:
  assumes "api_keys (database w) = Some t" and "admitted fsub w tm api_key"
  shows "\<exists>k r. api_key = Some k \<and> t k = Some r \<and>
           \<not> isl (fst (get_current_api_key fsub track dl w tm now api_key)) \<and>
           database (snd (get_current_api_key fsub track dl w tm now api_key)) =
             (if track
              then \<lparr>api_keys = Some (t(k \<mapsto> r\<lparr>total_requests := total_requests r + 1,
                                              updated_at := now\<rparr>))\<rparr>
              else database w)"
proof -
  from assms(2) obtain k where k: "api_key = Some k" "k \<noteq> []"
    by (auto simp: admitted_def split: option.splits)
  from assms k obtain r where r: "t k = Some r"
    and a: "allowed (fst (check fsub (rate_limiter w) tm k (rate_limit r)))"
    by (auto simp: admitted_def lookup_def split: option.splits)
  obtain res rl where ch: "check fsub (rate_limiter w) tm k (rate_limit r) = (res, rl)"
    by (cases "check fsub (rate_limiter w) tm k (rate_limit r)") auto
  have res: "res = Inr ()" using a ch by (cases res) (auto simp: allowed_def)
  have "\<not> isl (fst (get_current_api_key fsub track dl w tm now api_key)) \<and>
           database (snd (get_current_api_key fsub track dl w tm now api_key)) =
             (if track
              then \<lparr>api_keys = Some (t(k \<mapsto> r\<lparr>total_requests := total_requests r + 1,
                                              updated_at := now\<rparr>))\<rparr>
              else database w)"
    using k r assms(1) ch res
    by (simp add: get_current_api_key_def get_api_key_def dict_get_rate_limit_def
        increment_usage_def)
  with k r show ?thesis by blast
qed

text \<open>
  Claim C3. On a store whose table exists, a request fails exactly when it is not
  admitted, that is when authentication fails or the limiter rejects it. After the
  request the \<^verbatim>\<open>total_requests\<close> of the presented key is one higher when the request was
  admitted with usage tracking enabled; in every other case, and for every other key,
  each counter is what it was.
\<close>

theorem usage_counted_once:
  assumes "api_keys (database w) = Some t"
    and "w' = snd (get_current_api_key fsub track dl w tm now api_key)"
  shows "isl (fst (get_current_api_key fsub track dl w tm now api_key)) = (\<not> admitted fsub w tm api_key) \<and>
         (\<forall>k. usage (database w') k =
            (if admitted fsub w tm api_key \<and> track \<and> api_key = Some k
             then map_option (\<lambda>n. n + 1) (usage (database w) k)
             else usage (database w) k))"
proof (cases "admitted fsub w tm api_key")
  case False
  then show ?thesis
    using gate_not_admitted [OF assms(1) False, where track = track and dl = dl and now = now] assms(2) by simp
next
  case True
  from gate_admitted [OF assms(1) True, where track = track and dl = dl and now = now]
  obtain k r where kr: "api_key = Some k" "t k = Some r"
    "\<not> isl (fst (get_current_api_key fsub track dl w tm now api_key))"
    "database w' =
       (if track
        then \<lparr>api_keys = Some (t(k \<mapsto> r\<lparr>total_requests := total_requests r + 1,
                                        updated_at := now\<rparr>))\<rparr>
        else database w)"
    using assms(2) by auto
  have "usage (database w') k' =
            (if track \<and> k = k'
             then map_option (\<lambda>n. n + 1) (usage (database w) k')
             else usage (database w) k')" for k'
    using kr(2,4) assms(1) by (auto simp: usage_def lookup_def)
  then show ?thesis using True kr(1,3) by auto
qed

text \<open>A key at 7 requests, admitted with tracking: the request returns and the key is at 8.\<close>

theorem usage_counted_once_witness:
  "\<not> isl (fst (get_current_api_key (-) True 2
       \<lparr>database = \<lparr>api_keys = Some [''test-key'' \<mapsto>
            \<lparr>row_key = ''test-key'', owner = ''Test User'', rate_limit = 2, total_requests = 7,
             created_at = ''t0'', updated_at = ''t1''\<rparr>]\<rparr>,
         rate_limiter = \<lparr>window_seconds = 60, state = Map.empty\<rparr>\<rparr>
       0 ''t2'' (Some ''test-key''))) \<and>
   usage (database (snd (get_current_api_key (-) True 2
       \<lparr>database = \<lparr>api_keys = Some [''test-key'' \<mapsto>
            \<lparr>row_key = ''test-key'', owner = ''Test User'', rate_limit = 2, total_requests = 7,
             created_at = ''t0'', updated_at = ''t1''\<rparr>]\<rparr>,
         rate_limiter = \<lparr>window_seconds = 60, state = Map.empty\<rparr>\<rparr>
       0 ''t2'' (Some ''test-key'')))) ''test-key'' = Some 8"
proof -
  let ?t = "[''test-key'' \<mapsto>
            \<lparr>row_key = ''test-key'', owner = ''Test User'', rate_limit = 2, total_requests = 7,
             created_at = ''t0'', updated_at = ''t1''\<rparr>]"
  let ?w = "\<lparr>database = \<lparr>api_keys = Some ?t\<rparr>,
         rate_limiter = \<lparr>window_seconds = 60, state = Map.empty\<rparr>\<rparr>"
  have h1: "api_keys (database ?w) = Some ?t" by simp
  have h2: "snd (get_current_api_key (-) True 2 ?w 0 ''t2'' (Some ''test-key'')) =
            snd (get_current_api_key (-) True 2 ?w 0 ''t2'' (Some ''test-key''))" by simp
  have a: "admitted (-) ?w 0 (Some ''test-key'')"
    by (simp add: admitted_def lookup_def check_def allowed_def)
  have u: "usage (database ?w) ''test-key'' = Some 7"
    by (simp add: usage_def lookup_def)
  show ?thesis
    using usage_counted_once [where fsub = "(-)", OF h1 h2] a u by simp
qed

text \<open>
  Claim C5, amended. On a store whose table exists, a request with no key, a request
  with an empty key and a request with a key the store does not hold all fail with an
  \<^verbatim>\<open>HTTPException\<close> of status 401 and leave the store and the limiter unchanged; the
  detail of the exception is \<^verbatim>\<open>Missing API key\<close> in the first two cases and
  \<^verbatim>\<open>Invalid API key\<close> in the third.
\<close>

theorem unauthenticated_same_status:
  assumes "api_keys (database w) = Some t"
    and "t k = None"
    and "k \<noteq> []"
  shows "get_current_api_key fsub track dl w tm now None =
           (Inl (HTTPException 401 ''Missing API key''), w) \<and>
         get_current_api_key fsub track dl w tm now (Some []) =
           (Inl (HTTPException 401 ''Missing API key''), w) \<and>
         get_current_api_key fsub track dl w tm now (Some k) =
           (Inl (HTTPException 401 ''Invalid API key''), w)"
  using assms by (simp add: get_current_api_key_def get_api_key_def)

text \<open>An empty table: no key, and the key \<^verbatim>\<open>nope\<close>.\<close>

theorem unauthenticated_same_status_witness:
  "get_current_api_key (-) True 2
       \<lparr>database = \<lparr>api_keys = Some Map.empty\<rparr>,
         rate_limiter = \<lparr>window_seconds = 60, state = Map.empty\<rparr>\<rparr>
       0 ''t2'' None =
     (Inl (HTTPException 401 ''Missing API key''),
      \<lparr>database = \<lparr>api_keys = Some Map.empty\<rparr>,
         rate_limiter = \<lparr>window_seconds = 60, state = Map.empty\<rparr>\<rparr>) \<and>
   get_current_api_key (-) True 2
       \<lparr>database = \<lparr>api_keys = Some Map.empty\<rparr>,
         rate_limiter = \<lparr>window_seconds = 60, state = Map.empty\<rparr>\<rparr>
       0 ''t2'' (Some ''nope'') =
     (Inl (HTTPException 401 ''Invalid API key''),
      \<lparr>database = \<lparr>api_keys = Some Map.empty\<rparr>,
         rate_limiter = \<lparr>window_seconds = 60, state = Map.empty\<rparr>\<rparr>)"
proof -
  let ?w = "\<lparr>database = \<lparr>api_keys = Some Map.empty\<rparr>,
         rate_limiter = \<lparr>window_seconds = 60, state = Map.empty\<rparr>\<rparr>"
  have h1: "api_keys (database ?w) = Some Map.empty" by simp
  have h2: "(Map.empty :: string \<Rightarrow> ApiKeyRow option) ''nope'' = None" by simp
  have h3: "''nope'' \<noteq> []" by simp
  show ?thesis
    using unauthenticated_same_status
      [where fsub = "(-)" and track = True and dl = 2 and tm = 0 and now = "''t2''",
       OF h1 h2 h3] by simp
qed

text \<open>
  Claim C5 as stated fails: the exception raised for a missing key and the one raised
  for an unknown key are different values (their details differ), so the two cases can
  be told apart from the response.
\<close>

theorem missing_and_unknown_key_differ:
  "fst (get_current_api_key (-) True 2
       \<lparr>database = \<lparr>api_keys = Some Map.empty\<rparr>,
         rate_limiter = \<lparr>window_seconds = 60, state = Map.empty\<rparr>\<rparr>
       0 ''t2'' None) \<noteq>
   fst (get_current_api_key (-) True 2
       \<lparr>database = \<lparr>api_keys = Some Map.empty\<rparr>,
         rate_limiter = \<lparr>window_seconds = 60, state = Map.empty\<rparr>\<rparr>
       0 ''t2'' (Some ''nope''))"
  by (simp add: get_current_api_key_def get_api_key_def)

end
